theory Spec2Isabelle
  imports Main
begin

section \<open>Python values used by the password checker\<close>

text \<open>
  A Python \<open>str\<close> is a sequence of Unicode code points, and \<open>len\<close> counts code
  points; a code point is modelled by its number. String literals of the source are
  ASCII and are written with \<open>lit\<close>.
\<close>

type_synonym pystr = "nat list"

definition lit :: "string \<Rightarrow> pystr" where
  "lit s = map of_char s"

text \<open>\<open>ord(c)\<close> of a one-character string is its code point, a Python integer.\<close>

definition py_ord :: "nat \<Rightarrow> int" where
  "py_ord c = int c"

text \<open>
  Indexing a string raises \<open>IndexError\<close> out of range. The indices the checker
  computes are never negative.
\<close>

datatype error = IndexError

definition getitem :: "pystr \<Rightarrow> nat \<Rightarrow> error + nat" where
  "getitem s i = (if i < length s then Inr (s ! i) else Inl IndexError)"

text \<open>\<open>range(n)\<close> is empty when \<open>n\<close> is zero or negative.\<close>

definition py_range :: "int \<Rightarrow> nat list" where
  "py_range n = [0..<nat n]"

text \<open>
  The decimal rendering of a length inside an f-string.
\<close>

fun str_nat :: "nat \<Rightarrow> pystr" where
  "str_nat n = (if n < 10 then [48 + n] else str_nat (n div 10) @ [48 + n mod 10])"

declare str_nat.simps [simp del]

subsection \<open>Lower-casing\<close>

definition ascii_lower :: "nat \<Rightarrow> nat" where
  "ascii_lower c = (if 65 \<le> c \<and> c \<le> 90 then c + 32 else c)"

text \<open>
  \<open>str.lower()\<close> maps \<open>A\<close>..\<open>Z\<close> to \<open>a\<close>..\<open>z\<close> on a pure ASCII string. A string
  with a code point beyond ASCII goes through the case-mapping tables of the
  interpreter's Unicode database, which are not part of the repository: that mapping is
  the parameter \<open>lower_u\<close> of every function that lower-cases.
\<close>

definition py_lower :: "(pystr \<Rightarrow> pystr) \<Rightarrow> pystr \<Rightarrow> pystr" where
  "py_lower lower_u s = (if list_all (\<lambda>c. c < 128) s then map ascii_lower s else lower_u s)"

text \<open>
  A mapping that changes nothing, for evaluating the checker on ASCII passwords, where
  \<open>py_lower\<close> does not consult its parameter.
\<close>

definition no_case_map :: "pystr \<Rightarrow> pystr" where
  "no_case_map s = s"

subsection \<open>Regular-expression character classes\<close>

text \<open>
  Each pattern of the source is a single character class, so \<open>re.search\<close> returns a
  match exactly when some character of the string is in the class; the match found is
  the leftmost one, and \<open>None\<close> is the only falsy result.
\<close>

definition re_search :: "(nat \<Rightarrow> bool) \<Rightarrow> pystr \<Rightarrow> nat option" where
  "re_search cls s = find cls s"

definition truthy :: "nat option \<Rightarrow> bool" where
  "truthy m = (m \<noteq> None)"

text \<open>\<open>[a-z]\<close> and \<open>[A-Z]\<close>, without flags: the ASCII letters only.\<close>

definition class_lower :: "nat \<Rightarrow> bool" where
  "class_lower c = (97 \<le> c \<and> c \<le> 122)"

definition class_upper :: "nat \<Rightarrow> bool" where
  "class_upper c = (65 \<le> c \<and> c \<le> 90)"

text \<open>
  \<open>\d\<close> in a \<open>str\<close> pattern without the ASCII flag matches the Unicode decimal
  digits. Below 128 these are \<open>0\<close>..\<open>9\<close>. Which code points beyond ASCII are decimal
  digits is read from the interpreter's Unicode database, which is not part of the
  repository and grows from version to version: that predicate is the parameter
  \<open>digit_u\<close> of every function that tests for digits.
\<close>

definition class_digit :: "(nat \<Rightarrow> bool) \<Rightarrow> nat \<Rightarrow> bool" where
  "class_digit digit_u c = (if c < 128 then 48 \<le> c \<and> c \<le> 57 else digit_u c)"

text \<open>
  One such database, for evaluating the checker on concrete passwords: the decimal digits
  of Unicode 14.0, which come in runs of ten, \<open>0\<close> to \<open>9\<close> of one script. The table
  lists the zero of every run beyond ASCII.
\<close>

definition unicode14_zeros :: "nat list" where
  "unicode14_zeros =
    [1632, 1776, 1984, 2406, 2534, 2662, 2790,
     2918, 3046, 3174, 3302, 3430, 3558, 3664, 3792,
     3872, 4160, 4240, 6112, 6160, 6470, 6608, 6784,
     6800, 6992, 7088, 7232, 7248, 42528, 43216, 43264,
     43472, 43504, 43600, 44016, 65296, 66720, 68912, 69734,
     69872, 69942, 70096, 70384, 70736, 70864, 71248, 71360,
     71472, 71904, 72016, 72784, 73040, 73120, 92768, 92864,
     93008, 120782, 120792, 120802, 120812, 120822, 123200, 123632,
     125264, 130032]"

definition unicode14_digit :: "nat \<Rightarrow> bool" where
  "unicode14_digit c = list_ex (\<lambda>z. z \<le> c \<and> c < z + 10) unicode14_zeros"

text \<open>The bracket expression of the special characters; \<open>\-\<close>, \<open>\[\<close> and \<open>\]\<close> are literals.\<close>

definition special_chars :: pystr where
  "special_chars = lit ''!@#$%^&*()_+-=[]{}|;:,.<>?''"

definition class_special :: "nat \<Rightarrow> bool" where
  "class_special c = (c \<in> set special_chars)"

section \<open>The password checker\<close>

datatype PasswordStrength = VERY_WEAK | WEAK | FAIR | GOOD | STRONG | VERY_STRONG

text \<open>The \<open>value\<close> of an enumeration member.\<close>

fun strength_value :: "PasswordStrength \<Rightarrow> pystr" where
  "strength_value VERY_WEAK = lit ''Very Weak''"
| "strength_value WEAK = lit ''Weak''"
| "strength_value FAIR = lit ''Fair''"
| "strength_value GOOD = lit ''Good''"
| "strength_value STRONG = lit ''Strong''"
| "strength_value VERY_STRONG = lit ''Very Strong''"

text \<open>The dictionary \<open>_create_result\<close> returns, with its four fixed keys.\<close>

record result =
  strength :: pystr
  score :: int
  feedback :: "pystr list"
  is_strong :: bool

definition common_passwords :: "pystr set" where
  "common_passwords =
    {lit ''password'', lit ''123456'', lit ''123456789'', lit ''qwerty'', lit ''abc123'',
     lit ''password123'', lit ''admin'', lit ''letmein'', lit ''welcome'', lit ''monkey''}"

definition check_length :: "pystr \<Rightarrow> int" where
  "check_length password =
    (let len = length password in
     if len < 6 then 0
     else if len < 8 then 5
     else if len < 12 then 10
     else 15)"

definition check_character_variety :: "(nat \<Rightarrow> bool) \<Rightarrow> pystr \<Rightarrow> int" where
  "check_character_variety digit_u password =
    (let score0 = 0;
         score1 = (if truthy (re_search class_lower password) then score0 + 5 else score0);
         score2 = (if truthy (re_search class_upper password) then score1 + 5 else score1);
         score3 = (if truthy (re_search (class_digit digit_u) password) then score2 + 5 else score2);
         score4 = (if truthy (re_search class_special password) then score3 + 5 else score3)
     in score4)"

text \<open>
  The test of one position of \<open>_has_sequential_chars\<close>: the operands are read in the
  source's order, and \<open>and\<close> reads its right operand only when the left one holds.
\<close>

definition sequential_at :: "pystr \<Rightarrow> nat \<Rightarrow> error + bool" where
  "sequential_at password i =
    (case getitem password (i + 1) of Inl e \<Rightarrow> Inl e | Inr b \<Rightarrow>
     (case getitem password i of Inl e \<Rightarrow> Inl e | Inr a \<Rightarrow>
      if py_ord b = py_ord a + 1 then
        (case getitem password (i + 2) of Inl e \<Rightarrow> Inl e | Inr c \<Rightarrow>
         (case getitem password i of Inl e \<Rightarrow> Inl e | Inr a' \<Rightarrow>
          Inr (py_ord c = py_ord a' + 2)))
      else Inr False))"

text \<open>The \<open>for\<close> loop over the indices, leaving at the first position that matches.\<close>

fun sequential_loop :: "pystr \<Rightarrow> nat list \<Rightarrow> error + bool" where
  "sequential_loop password [] = Inr False"
| "sequential_loop password (i # rest) =
    (case sequential_at password i of
       Inl e \<Rightarrow> Inl e
     | Inr found \<Rightarrow> if found then Inr True else sequential_loop password rest)"

definition has_sequential_chars :: "pystr \<Rightarrow> error + bool" where
  "has_sequential_chars password =
    sequential_loop password (py_range (int (length password) - 2))"

text \<open>
  The chained comparison \<open>p[i] == p[i+1] == p[i+2]\<close> reads \<open>p[i+2]\<close> only when the
  first two characters are equal.
\<close>

definition repeated_at :: "pystr \<Rightarrow> nat \<Rightarrow> error + bool" where
  "repeated_at password i =
    (case getitem password i of Inl e \<Rightarrow> Inl e | Inr a \<Rightarrow>
     (case getitem password (i + 1) of Inl e \<Rightarrow> Inl e | Inr b \<Rightarrow>
      if a = b then
        (case getitem password (i + 2) of Inl e \<Rightarrow> Inl e | Inr c \<Rightarrow> Inr (b = c))
      else Inr False))"

fun repeated_loop :: "pystr \<Rightarrow> nat list \<Rightarrow> error + bool" where
  "repeated_loop password [] = Inr False"
| "repeated_loop password (i # rest) =
    (case repeated_at password i of
       Inl e \<Rightarrow> Inl e
     | Inr found \<Rightarrow> if found then Inr True else repeated_loop password rest)"

definition has_repeated_chars :: "pystr \<Rightarrow> error + bool" where
  "has_repeated_chars password =
    repeated_loop password (py_range (int (length password) - 2))"

definition check_patterns :: "(pystr \<Rightarrow> pystr) \<Rightarrow> pystr \<Rightarrow> error + int" where
  "check_patterns lower_u password =
    (let password_lower = py_lower lower_u password in
     if password_lower \<in> common_passwords then Inr (- 10)
     else
       (case has_sequential_chars password of
          Inl e \<Rightarrow> Inl e
        | Inr sequential \<Rightarrow>
            if sequential then Inr (- 5)
            else
              (case has_repeated_chars password of
                 Inl e \<Rightarrow> Inl e
               | Inr repeated \<Rightarrow> if repeated then Inr (- 5) else Inr 0)))"

definition determine_strength :: "int \<Rightarrow> PasswordStrength" where
  "determine_strength n =
    (if n < 5 then VERY_WEAK
     else if n < 10 then WEAK
     else if n < 20 then FAIR
     else if n < 30 then GOOD
     else if n < 40 then STRONG
     else VERY_STRONG)"

text \<open>
  \<open>_generate_feedback\<close> appends to one list; every step below takes the list built so
  far and returns it extended.
\<close>

definition length_feedback :: "pystr \<Rightarrow> pystr" where
  "length_feedback password =
    (let len = length password in
     if len < 8 then
       lit ''Password is too short ('' @ str_nat len @
       lit '' characters). Use at least 8 characters.''
     else if len < 12 then
       lit ''Consider using a longer password ('' @ str_nat len @
       lit '' characters). 12+ characters recommended.''
     else
       lit ''Good password length ('' @ str_nat len @ lit '' characters).'')"

definition variety_feedback :: "(nat \<Rightarrow> bool) \<Rightarrow> pystr \<Rightarrow> pystr list \<Rightarrow> pystr list" where
  "variety_feedback digit_u password fb0 =
    (let has_lower = truthy (re_search class_lower password);
         has_upper = truthy (re_search class_upper password);
         has_digits = truthy (re_search (class_digit digit_u) password);
         has_special = truthy (re_search class_special password);
         fb1 = (if \<not> has_lower then fb0 @ [lit ''Add lowercase letters (a-z)''] else fb0);
         fb2 = (if \<not> has_upper then fb1 @ [lit ''Add uppercase letters (A-Z)''] else fb1);
         fb3 = (if \<not> has_digits then fb2 @ [lit ''Add numbers (0-9)''] else fb2);
         fb4 = (if \<not> has_special then fb3 @ [lit ''Add special characters (!@#$%^&*)'']
                else fb3)
     in fb4)"

definition pattern_feedback :: "pystr \<Rightarrow> pystr list \<Rightarrow> error + pystr list" where
  "pattern_feedback password fb0 =
    (case has_sequential_chars password of
       Inl e \<Rightarrow> Inl e
     | Inr sequential \<Rightarrow>
         let fb1 = (if sequential then fb0 @ [lit ''Avoid sequential characters (abc, 123)'']
                    else fb0)
         in (case has_repeated_chars password of
               Inl e \<Rightarrow> Inl e
             | Inr repeated \<Rightarrow>
                 Inr (if repeated then fb1 @ [lit ''Avoid repeated characters (aaa, 111)'']
                      else fb1)))"

definition strength_feedback :: "PasswordStrength \<Rightarrow> pystr list \<Rightarrow> pystr list" where
  "strength_feedback st fb0 =
    (if st \<in> set [VERY_WEAK, WEAK] then
       fb0 @ [lit ''Password is too weak. Consider using a password manager.'']
     else if st = FAIR then
       fb0 @ [lit ''Password is acceptable but could be stronger.'']
     else if st \<in> set [GOOD, STRONG, VERY_STRONG] then
       fb0 @ [lit ''Great! This is a strong password.'']
     else fb0)"

definition generate_feedback ::
  "(nat \<Rightarrow> bool) \<Rightarrow> pystr \<Rightarrow> PasswordStrength \<Rightarrow> error + pystr list" where
  "generate_feedback digit_u password st =
    (let fb0 = [];
         fb1 = fb0 @ [length_feedback password];
         fb2 = variety_feedback digit_u password fb1
     in case pattern_feedback password fb2 of
          Inl e \<Rightarrow> Inl e
        | Inr fb3 \<Rightarrow> Inr (strength_feedback st fb3))"

definition create_result :: "PasswordStrength \<Rightarrow> int \<Rightarrow> pystr list \<Rightarrow> result" where
  "create_result st n fb =
    \<lparr>strength = strength_value st,
     score = n,
     feedback = fb,
     is_strong = (st \<in> set [GOOD, STRONG, VERY_STRONG])\<rparr>"

definition check_password ::
  "(pystr \<Rightarrow> pystr) \<Rightarrow> (nat \<Rightarrow> bool) \<Rightarrow> pystr \<Rightarrow> error + result" where
  "check_password lower_u digit_u password =
    (if password = [] then
       Inr (create_result VERY_WEAK 0 [lit ''Password cannot be empty''])
     else
       let length_score = check_length password;
           char_variety_score = check_character_variety digit_u password
       in case check_patterns lower_u password of
            Inl e \<Rightarrow> Inl e
          | Inr pattern_score \<Rightarrow>
              let total_score = length_score + char_variety_score + pattern_score;
                  st = determine_strength total_score
              in (case generate_feedback digit_u password st of
                    Inl e \<Rightarrow> Inl e
                  | Inr fb \<Rightarrow> Inr (create_result st total_score fb)))"

section \<open>Runs of characters\<close>

text \<open>
  A sequential run is three consecutive characters whose code points increase by exactly
  one at each step; a repeated run is three consecutive identical characters.
\<close>

definition sequential_run :: "pystr \<Rightarrow> bool" where
  "sequential_run p =
    (\<exists>i. i + 2 < length p \<and> p ! (i + 1) = p ! i + 1 \<and> p ! (i + 2) = p ! i + 2)"

definition repeated_run :: "pystr \<Rightarrow> bool" where
  "repeated_run p =
    (\<exists>i. i + 2 < length p \<and> p ! i = p ! (i + 1) \<and> p ! (i + 1) = p ! (i + 2))"

section \<open>Closed forms of the checker's parts\<close>

text \<open>
  The functions below are not in the source: they name what the source's functions are
  proved to compute, in terms of the two kinds of run.
\<close>

definition pattern_penalty :: "(pystr \<Rightarrow> pystr) \<Rightarrow> pystr \<Rightarrow> int" where
  "pattern_penalty lower_u p =
    (if py_lower lower_u p \<in> common_passwords then - 10
     else if sequential_run p then - 5
     else if repeated_run p then - 5
     else 0)"

definition total_score :: "(pystr \<Rightarrow> pystr) \<Rightarrow> (nat \<Rightarrow> bool) \<Rightarrow> pystr \<Rightarrow> int" where
  "total_score lower_u digit_u p =
    check_length p + check_character_variety digit_u p + pattern_penalty lower_u p"

definition closing_remark :: "PasswordStrength \<Rightarrow> pystr" where
  "closing_remark st =
    (case st of
       VERY_WEAK \<Rightarrow> lit ''Password is too weak. Consider using a password manager.''
     | WEAK \<Rightarrow> lit ''Password is too weak. Consider using a password manager.''
     | FAIR \<Rightarrow> lit ''Password is acceptable but could be stronger.''
     | GOOD \<Rightarrow> lit ''Great! This is a strong password.''
     | STRONG \<Rightarrow> lit ''Great! This is a strong password.''
     | VERY_STRONG \<Rightarrow> lit ''Great! This is a strong password.'')"

definition feedback_list :: "(nat \<Rightarrow> bool) \<Rightarrow> pystr \<Rightarrow> PasswordStrength \<Rightarrow> pystr list" where
  "feedback_list digit_u p st =
    [length_feedback p] @
    (if \<exists>c \<in> set p. class_lower c then [] else [lit ''Add lowercase letters (a-z)'']) @
    (if \<exists>c \<in> set p. class_upper c then [] else [lit ''Add uppercase letters (A-Z)'']) @
    (if \<exists>c \<in> set p. class_digit digit_u c then [] else [lit ''Add numbers (0-9)'']) @
    (if \<exists>c \<in> set p. class_special c then [] else [lit ''Add special characters (!@#$%^&*)'']) @
    (if sequential_run p then [lit ''Avoid sequential characters (abc, 123)''] else []) @
    (if repeated_run p then [lit ''Avoid repeated characters (aaa, 111)''] else []) @
    [closing_remark st]"

text \<open>
  The variety sub-score as the specification words it, with the digit class restricted to
  the ASCII digits \<open>0\<close>..\<open>9\<close>; it is compared with \<open>check_character_variety\<close> below.
\<close>

definition spec_character_variety :: "pystr \<Rightarrow> int" where
  "spec_character_variety p =
    (if \<exists>c \<in> set p. 97 \<le> c \<and> c \<le> 122 then 5 else 0) +
    (if \<exists>c \<in> set p. 65 \<le> c \<and> c \<le> 90 then 5 else 0) +
    (if \<exists>c \<in> set p. 48 \<le> c \<and> c \<le> 57 then 5 else 0) +
    (if \<exists>c \<in> set p. c \<in> set special_chars then 5 else 0)"

section \<open>The loops never index out of range\<close>

lemma getitem_in_range: "i < length s \<Longrightarrow> getitem s i = Inr (s ! i)"
  by (simp add: getitem_def)

lemma sequential_at_in_range:
  assumes "i + 2 < length p"
  shows "sequential_at p i = Inr (p ! (i + 1) = p ! i + 1 \<and> p ! (i + 2) = p ! i + 2)"
proof -
  from assms have "i < length p" "i + 1 < length p" by simp_all
  with assms show ?thesis
    by (auto simp: sequential_at_def getitem_in_range py_ord_def)
qed

lemma sequential_loop_total:
  assumes "\<forall>i \<in> set js. i + 2 < length p"
  shows "sequential_loop p js =
    Inr (\<exists>i \<in> set js. p ! (i + 1) = p ! i + 1 \<and> p ! (i + 2) = p ! i + 2)"
  using assms
proof (induction js)
  case Nil
  then show ?case by simp
next
  case (Cons j js)
  then show ?case by (auto simp: sequential_at_in_range)
qed

lemma set_py_range: "set (py_range (int (length p) - 2)) = {i. i + 2 < length p}"
  by (auto simp: py_range_def)

lemma has_sequential_chars_run: "has_sequential_chars p = Inr (sequential_run p)"
proof -
  have "\<forall>i \<in> set (py_range (int (length p) - 2)). i + 2 < length p"
    by (simp add: set_py_range)
  then show ?thesis
    unfolding has_sequential_chars_def sequential_run_def
    by (simp add: sequential_loop_total set_py_range)
qed

lemma repeated_at_in_range:
  assumes "i + 2 < length p"
  shows "repeated_at p i = Inr (p ! i = p ! (i + 1) \<and> p ! (i + 1) = p ! (i + 2))"
proof -
  from assms have "i < length p" "i + 1 < length p" by simp_all
  with assms show ?thesis
    by (simp add: repeated_at_def getitem_in_range)
qed

lemma repeated_loop_total:
  assumes "\<forall>i \<in> set js. i + 2 < length p"
  shows "repeated_loop p js =
    Inr (\<exists>i \<in> set js. p ! i = p ! (i + 1) \<and> p ! (i + 1) = p ! (i + 2))"
  using assms
proof (induction js)
  case Nil
  then show ?case by simp
next
  case (Cons j js)
  then show ?case by (auto simp: repeated_at_in_range)
qed

lemma has_repeated_chars_run: "has_repeated_chars p = Inr (repeated_run p)"
proof -
  have "\<forall>i \<in> set (py_range (int (length p) - 2)). i + 2 < length p"
    by (simp add: set_py_range)
  then show ?thesis
    unfolding has_repeated_chars_def repeated_run_def
    by (simp add: repeated_loop_total set_py_range)
qed

lemma truthy_re_search: "truthy (re_search cls s) = (\<exists>c \<in> set s. cls c)"
  by (auto simp: truthy_def re_search_def find_None_iff)

lemma check_patterns_eq:
  "check_patterns lower_u p =
    Inr (if py_lower lower_u p \<in> common_passwords then - 10
         else if sequential_run p then - 5
         else if repeated_run p then - 5
         else 0)"
  by (simp add: check_patterns_def has_sequential_chars_run has_repeated_chars_run)

section \<open>What each part computes\<close>

lemma check_patterns_penalty: "check_patterns lower_u p = Inr (pattern_penalty lower_u p)"
  by (simp add: check_patterns_eq pattern_penalty_def)

lemma variety_feedback_eq:
  "variety_feedback digit_u p fb =
    fb @
    (if \<exists>c \<in> set p. class_lower c then [] else [lit ''Add lowercase letters (a-z)'']) @
    (if \<exists>c \<in> set p. class_upper c then [] else [lit ''Add uppercase letters (A-Z)'']) @
    (if \<exists>c \<in> set p. class_digit digit_u c then [] else [lit ''Add numbers (0-9)'']) @
    (if \<exists>c \<in> set p. class_special c then [] else [lit ''Add special characters (!@#$%^&*)''])"
  by (simp add: variety_feedback_def truthy_re_search Let_def)

lemma pattern_feedback_eq:
  "pattern_feedback p fb =
    Inr (fb @
    (if sequential_run p then [lit ''Avoid sequential characters (abc, 123)''] else []) @
    (if repeated_run p then [lit ''Avoid repeated characters (aaa, 111)''] else []))"
  by (simp add: pattern_feedback_def has_sequential_chars_run has_repeated_chars_run Let_def)

lemma strength_feedback_eq: "strength_feedback st fb = fb @ [closing_remark st]"
  by (cases st) (simp_all add: strength_feedback_def closing_remark_def)

lemma generate_feedback_eq: "generate_feedback digit_u p st = Inr (feedback_list digit_u p st)"
  by (simp add: generate_feedback_def variety_feedback_eq pattern_feedback_eq
      strength_feedback_eq feedback_list_def Let_def)

lemma check_password_nonempty:
  assumes "p \<noteq> []"
  shows "check_password lower_u digit_u p =
    Inr (create_result (determine_strength (total_score lower_u digit_u p)) (total_score lower_u digit_u p)
           (feedback_list digit_u p (determine_strength (total_score lower_u digit_u p))))"
  using assms
  by (simp add: check_password_def check_patterns_penalty generate_feedback_eq
      total_score_def Let_def)

lemma check_password_of_empty:
  "check_password lower_u digit_u [] =
    Inr (create_result VERY_WEAK 0 [lit ''Password cannot be empty''])"
  by (simp add: check_password_def)

lemma check_length_bounds: "0 \<le> check_length p \<and> check_length p \<le> 15"
  by (simp add: check_length_def Let_def)

lemma check_character_variety_eq:
  "check_character_variety digit_u p =
    (if \<exists>c \<in> set p. class_lower c then 5 else 0) +
    (if \<exists>c \<in> set p. class_upper c then 5 else 0) +
    (if \<exists>c \<in> set p. class_digit digit_u c then 5 else 0) +
    (if \<exists>c \<in> set p. class_special c then 5 else 0)"
  by (simp add: check_character_variety_def truthy_re_search Let_def)

lemma check_character_variety_bounds:
  "0 \<le> check_character_variety digit_u p \<and> check_character_variety digit_u p \<le> 20"
  by (simp add: check_character_variety_eq)

lemma pattern_penalty_bounds: "- 10 \<le> pattern_penalty lower_u p \<and> pattern_penalty lower_u p \<le> 0"
  by (simp add: pattern_penalty_def)

lemma total_score_bounds: "- 10 \<le> total_score lower_u digit_u p \<and> total_score lower_u digit_u p \<le> 35"
  using check_length_bounds [of p] check_character_variety_bounds [of digit_u p]
    pattern_penalty_bounds [of lower_u p]
  by (simp add: total_score_def)

lemma check_password_returns: "\<exists>r. check_password lower_u digit_u p = Inr r"
  by (cases "p = []") (simp_all add: check_password_of_empty check_password_nonempty)

lemma strength_value_inj: "strength_value a = strength_value b \<Longrightarrow> a = b"
  by (cases a; cases b) (simp_all add: lit_def)

lemma class_digit_ascii: "c < 128 \<Longrightarrow> class_digit digit_u c = (48 \<le> c \<and> c \<le> 57)"
  by (auto simp: class_digit_def)

subsection \<open>Sample passwords\<close>

lemma abc123_lower: "py_lower lower_u (lit ''abc123'') = lit ''abc123''"
  by (simp add: py_lower_def lit_def ascii_lower_def)

lemma abc123_penalty: "pattern_penalty lower_u (lit ''abc123'') = - 10"
  by (simp add: pattern_penalty_def abc123_lower common_passwords_def)

lemma abc123_variety: "check_character_variety digit_u (lit ''abc123'') = 10"
  by (simp add: check_character_variety_eq lit_def class_lower_def class_upper_def
      class_digit_def class_special_def special_chars_def)

lemma abc123_total: "total_score lower_u digit_u (lit ''abc123'') = 5"
  by (simp add: total_score_def abc123_penalty abc123_variety) (simp add: check_length_def lit_def)

lemma abc123_common: "py_lower lower_u (lit ''abc123'') \<in> common_passwords"
  by (simp add: abc123_lower common_passwords_def)

lemma abc111_runs: "sequential_run (lit ''abc111'')" "repeated_run (lit ''abc111'')"
proof -
  show "sequential_run (lit ''abc111'')"
    unfolding sequential_run_def by (rule exI [of _ 0]) (simp add: lit_def)
  show "repeated_run (lit ''abc111'')"
    unfolding repeated_run_def by (rule exI [of _ 3]) (simp add: lit_def)
qed

lemma abc111_not_common: "py_lower lower_u (lit ''abc111'') \<notin> common_passwords"
  by (simp add: py_lower_def lit_def ascii_lower_def common_passwords_def)

lemma abc111_total: "total_score lower_u digit_u (lit ''abc111'') = 10"
proof -
  have "check_length (lit ''abc111'') = 5" by (simp add: check_length_def lit_def)
  moreover have "check_character_variety digit_u (lit ''abc111'') = 10"
    by (simp add: check_character_variety_eq lit_def class_lower_def class_upper_def
      class_digit_def class_special_def special_chars_def)
  moreover have "pattern_penalty lower_u (lit ''abc111'') = - 5"
    by (simp add: pattern_penalty_def abc111_not_common abc111_runs)
  ultimately show ?thesis by (simp add: total_score_def)
qed

lemma strong_sample_runs:
  "\<not> sequential_run (lit ''MyV3ryS3cur3P@ssw0rd!'')" "\<not> repeated_run (lit ''MyV3ryS3cur3P@ssw0rd!'')"
proof -
  have "has_sequential_chars (lit ''MyV3ryS3cur3P@ssw0rd!'') = Inr False"
    by (simp add: has_sequential_chars_def py_range_def lit_def upt_conv_Cons
        sequential_at_def getitem_def py_ord_def)
  then show "\<not> sequential_run (lit ''MyV3ryS3cur3P@ssw0rd!'')"
    by (simp add: has_sequential_chars_run)
  have "has_repeated_chars (lit ''MyV3ryS3cur3P@ssw0rd!'') = Inr False"
    by (simp add: has_repeated_chars_def py_range_def lit_def upt_conv_Cons
        repeated_at_def getitem_def)
  then show "\<not> repeated_run (lit ''MyV3ryS3cur3P@ssw0rd!'')"
    by (simp add: has_repeated_chars_run)
qed

lemma strong_sample_total: "total_score no_case_map digit_u (lit ''MyV3ryS3cur3P@ssw0rd!'') = 35"
proof -
  have "check_length (lit ''MyV3ryS3cur3P@ssw0rd!'') = 15" by (simp add: check_length_def lit_def)
  moreover have "check_character_variety digit_u (lit ''MyV3ryS3cur3P@ssw0rd!'') = 20"
    by (simp add: check_character_variety_def re_search_def truthy_def lit_def class_lower_def
        class_upper_def class_digit_def class_special_def special_chars_def)
  moreover have "py_lower no_case_map (lit ''MyV3ryS3cur3P@ssw0rd!'') \<notin> common_passwords"
    by (simp add: py_lower_def lit_def ascii_lower_def common_passwords_def)
  then have "pattern_penalty no_case_map (lit ''MyV3ryS3cur3P@ssw0rd!'') = 0"
    by (simp add: pattern_penalty_def strong_sample_runs)
  ultimately show ?thesis by (simp add: total_score_def)
qed

section \<open>The claims\<close>

text \<open>
  Claim C1. For every string \<open>s\<close>, \<open>check_password\<close> returns a result (it is a total
  function and no \<open>IndexError\<close> or other exception escapes), and the \<open>score\<close> of the
  result is an integer between \<open>-10\<close> and \<open>50\<close>.
\<close>

theorem check_password_total_bounded:
  "\<exists>r. check_password lower_u digit_u s = Inr r \<and> - 10 \<le> score r \<and> score r \<le> 50"
proof (cases "s = []")
  case True
  then show ?thesis by (simp add: check_password_of_empty create_result_def)
next
  case False
  from total_score_bounds [of lower_u digit_u s]
  have "- 10 \<le> total_score lower_u digit_u s" "total_score lower_u digit_u s \<le> 50" by simp_all
  with False show ?thesis
    by (simp add: check_password_nonempty create_result_def)
qed

text \<open>
  The Unicode password of the test suite: \<open>p\<close>, U+00E1, \<open>ssw0rd123!\<close>. It has no
  upper-case letter, so lower-casing returns it unchanged.
\<close>

theorem check_password_total_bounded_witness:
  "\<exists>r. check_password no_case_map unicode14_digit [112, 225, 115, 115, 119, 48, 114, 100, 49, 50, 51, 33] = Inr r
     \<and> - 10 \<le> score r \<and> score r \<le> 50"
  using check_password_total_bounded
    [of no_case_map unicode14_digit "[112, 225, 115, 115, 119, 48, 114, 100, 49, 50, 51, 33]"]
  by simp

text \<open>
  Claim C2, as amended. \<open>abc123\<close> is itself in the common-password set, and that check
  comes first: the pattern sub-score of \<open>abc123\<close> is \<open>-10\<close>, not the sequential-run
  penalty \<open>-5\<close>. Its score is \<open>5\<close>, exactly \<open>10\<close> lower than the score of any password of
  equal length and character variety that has no pattern penalty.
\<close>

theorem abc123_common_penalty:
  "check_patterns lower_u (lit ''abc123'') = Inr (- 10) \<and>
   (\<exists>r. check_password lower_u digit_u (lit ''abc123'') = Inr r \<and> score r = 5 \<and>
      (\<forall>q rq. length q = length (lit ''abc123'') \<and>
          check_character_variety digit_u q = check_character_variety digit_u (lit ''abc123'') \<and>
          check_patterns lower_u q = Inr 0 \<and>
          check_password lower_u digit_u q = Inr rq \<longrightarrow> score r = score rq - 10))"
proof -
  have ne: "lit ''abc123'' \<noteq> []" by (simp add: lit_def)
  have other: "score rq = 15"
    if len: "length q = length (lit ''abc123'')"
      and var: "check_character_variety digit_u q = check_character_variety digit_u (lit ''abc123'')"
      and pat: "check_patterns lower_u q = Inr 0"
      and res: "check_password lower_u digit_u q = Inr rq" for q rq
  proof -
    from len have qne: "q \<noteq> []" by (auto simp: lit_def)
    from pat have "pattern_penalty lower_u q = 0" by (simp add: check_patterns_penalty)
    moreover from len have "check_length q = 5" by (simp add: check_length_def lit_def)
    ultimately have "total_score lower_u digit_u q = 15"
      using var by (simp add: total_score_def abc123_variety)
    with res qne show ?thesis
      by (auto simp: check_password_nonempty create_result_def)
  qed
  let ?r = "create_result WEAK 5 (feedback_list digit_u (lit ''abc123'') WEAK)"
  have res: "check_password lower_u digit_u (lit ''abc123'') = Inr ?r"
    by (simp add: check_password_nonempty [OF ne] abc123_total determine_strength_def)
  show ?thesis
  proof (intro conjI)
    show "check_patterns lower_u (lit ''abc123'') = Inr (- 10)"
      by (simp add: check_patterns_penalty abc123_penalty)
    show "\<exists>r. check_password lower_u digit_u (lit ''abc123'') = Inr r \<and> score r = 5 \<and>
      (\<forall>q rq. length q = length (lit ''abc123'') \<and>
          check_character_variety digit_u q = check_character_variety digit_u (lit ''abc123'') \<and>
          check_patterns lower_u q = Inr 0 \<and>
          check_password lower_u digit_u q = Inr rq \<longrightarrow> score r = score rq - 10)"
    proof (rule exI [of _ ?r], intro conjI allI impI)
      show "check_password lower_u digit_u (lit ''abc123'') = Inr ?r" by (rule res)
      show "score ?r = 5" by (simp add: create_result_def)
      fix q rq
      assume "length q = length (lit ''abc123'') \<and>
          check_character_variety digit_u q = check_character_variety digit_u (lit ''abc123'') \<and>
          check_patterns lower_u q = Inr 0 \<and>
          check_password lower_u digit_u q = Inr rq"
      then have "score rq = 15" using other by blast
      then show "score ?r = score rq - 10" by (simp add: create_result_def)
    qed
  qed
qed

theorem abc123_common_penalty_witness:
  "length (lit ''abd124'') = length (lit ''abc123'') \<and>
   check_character_variety unicode14_digit (lit ''abd124'') = check_character_variety unicode14_digit (lit ''abc123'') \<and>
   check_patterns no_case_map (lit ''abd124'') = Inr 0 \<and>
   (\<exists>r rq. check_password no_case_map unicode14_digit (lit ''abc123'') = Inr r \<and>
      check_password no_case_map unicode14_digit (lit ''abd124'') = Inr rq \<and>
      score r = 5 \<and> score rq = 15)"
proof -
  have len: "length (lit ''abd124'') = length (lit ''abc123'')" by (simp add: lit_def)
  have var: "check_character_variety unicode14_digit (lit ''abd124'') = check_character_variety unicode14_digit (lit ''abc123'')"
    by (simp add: check_character_variety_def re_search_def truthy_def lit_def class_lower_def
        class_upper_def class_digit_def class_special_def special_chars_def)
  have low: "py_lower no_case_map (lit ''abd124'') = lit ''abd124''"
    by (simp add: py_lower_def lit_def ascii_lower_def)
  have seq: "has_sequential_chars (lit ''abd124'') = Inr False"
    by (simp add: has_sequential_chars_def py_range_def lit_def upt_conv_Cons
        sequential_at_def getitem_def py_ord_def)
  have rep: "has_repeated_chars (lit ''abd124'') = Inr False"
    by (simp add: has_repeated_chars_def py_range_def lit_def upt_conv_Cons
        repeated_at_def getitem_def)
  have pat: "check_patterns no_case_map (lit ''abd124'') = Inr 0"
    by (simp add: check_patterns_def low seq rep) (simp add: common_passwords_def lit_def)
  obtain rq where rq: "check_password no_case_map unicode14_digit (lit ''abd124'') = Inr rq"
    using check_password_returns [of no_case_map unicode14_digit "lit ''abd124''"] by blast
  from abc123_common_penalty [of no_case_map unicode14_digit] obtain r where
    r: "check_password no_case_map unicode14_digit (lit ''abc123'') = Inr r" "score r = 5"
    and imp: "\<forall>q rq. length q = length (lit ''abc123'') \<and>
          check_character_variety unicode14_digit q = check_character_variety unicode14_digit (lit ''abc123'') \<and>
          check_patterns no_case_map q = Inr 0 \<and>
          check_password no_case_map unicode14_digit q = Inr rq \<longrightarrow> score r = score rq - 10"
    by blast
  from imp len var pat rq have "score r = score rq - 10" by blast
  with r rq len var pat show ?thesis by simp
qed

text \<open>
  Claim C2 as stated fails: the pattern sub-score of \<open>abc123\<close> is not \<open>-5\<close>.
\<close>

theorem abc123_sequential_penalty_counterexample:
  "check_patterns no_case_map (lit ''abc123'') = Inr (- 10) \<and>
   check_patterns no_case_map (lit ''abc123'') \<noteq> Inr (- 5)"
  by (simp add: check_patterns_penalty abc123_penalty)

text \<open>
  Claim C3. The claim is that only the ASCII ranges \<open>a\<close>..\<open>z\<close>, \<open>A\<close>..\<open>Z\<close>, \<open>0\<close>..\<open>9\<close>
  and the listed special characters count towards the variety sub-score, so that a digit
  beyond ASCII counts for no class. The code does not do this. On the one-character
  password U+0663, ARABIC-INDIC DIGIT THREE, which \<open>\d\<close> matches on every interpreter
  whose database has it as a decimal digit, the variety sub-score is \<open>5\<close> where the claim
  gives \<open>0\<close>, and the feedback of \<open>check_password\<close> leaves out the message
  \<open>Add numbers (0-9)\<close> although the password has none of \<open>0\<close>..\<open>9\<close>.
\<close>

theorem nonascii_digit_scores:
  assumes "digit_u 1635"
  shows "check_character_variety digit_u [1635] = 5 \<and>
    spec_character_variety [1635] = 0 \<and>
    (\<exists>r. check_password lower_u digit_u [1635] = Inr r \<and>
       lit ''Add numbers (0-9)'' \<notin> set (feedback r))"
proof -
  have d: "class_digit digit_u 1635" using assms by (simp add: class_digit_def)
  have v: "check_character_variety digit_u [1635] = 5"
    using d by (simp add: check_character_variety_eq class_lower_def class_upper_def
        class_special_def special_chars_def lit_def)
  have sp: "spec_character_variety [1635] = 0"
    by (simp add: spec_character_variety_def special_chars_def lit_def)
  have runs: "\<not> sequential_run [1635]" "\<not> repeated_run [1635]"
    by (simp_all add: sequential_run_def repeated_run_def)
  have len: "length_feedback [1635] =
      lit ''Password is too short (1 characters). Use at least 8 characters.''"
    by (simp add: length_feedback_def lit_def str_nat.simps)
  have fb: "lit ''Add numbers (0-9)'' \<notin> set (feedback_list digit_u [1635] st)" for st
    using d runs
    by (cases st)
      (simp_all add: feedback_list_def len closing_remark_def class_lower_def class_upper_def
        class_special_def special_chars_def lit_def)
  have "\<exists>r. check_password lower_u digit_u [1635] = Inr r \<and>
       lit ''Add numbers (0-9)'' \<notin> set (feedback r)"
    using fb by (simp add: check_password_nonempty create_result_def)
  with v sp show ?thesis by blast
qed

text \<open>
  In Unicode 14.0, as in every version of the database, U+0663 is a decimal digit.
\<close>

theorem nonascii_digit_scores_witness:
  "unicode14_digit 1635 \<and>
   check_character_variety unicode14_digit [1635] = 5 \<and>
   spec_character_variety [1635] = 0 \<and>
   (\<exists>r. check_password no_case_map unicode14_digit [1635] = Inr r \<and>
      lit ''Add numbers (0-9)'' \<notin> set (feedback r))"
proof -
  have d: "unicode14_digit 1635" by (simp add: unicode14_digit_def unicode14_zeros_def)
  from nonascii_digit_scores [of unicode14_digit no_case_map, OF d] d show ?thesis by blast
qed

text \<open>
  Claim C4. The tier is a function of the total score alone, bucketed by upper bounds:
  below 5 very weak, below 10 weak, below 20 fair, below 30 good, below 40 strong, and
  very strong otherwise; and the tier of every result is the bucket of its score.
\<close>

theorem determine_strength_buckets:
  "(determine_strength n = VERY_WEAK \<longleftrightarrow> n < 5) \<and>
   (determine_strength n = WEAK \<longleftrightarrow> 5 \<le> n \<and> n < 10) \<and>
   (determine_strength n = FAIR \<longleftrightarrow> 10 \<le> n \<and> n < 20) \<and>
   (determine_strength n = GOOD \<longleftrightarrow> 20 \<le> n \<and> n < 30) \<and>
   (determine_strength n = STRONG \<longleftrightarrow> 30 \<le> n \<and> n < 40) \<and>
   (determine_strength n = VERY_STRONG \<longleftrightarrow> 40 \<le> n) \<and>
   (\<exists>r. check_password lower_u digit_u p = Inr r \<and>
        strength r = strength_value (determine_strength (score r)))"
proof -
  have "\<exists>r. check_password lower_u digit_u p = Inr r \<and>
        strength r = strength_value (determine_strength (score r))"
  proof (cases "p = []")
    case True
    then show ?thesis
      by (simp add: check_password_of_empty create_result_def determine_strength_def)
  next
    case False
    then show ?thesis by (simp add: check_password_nonempty create_result_def)
  qed
  then show ?thesis by (simp add: determine_strength_def)
qed

theorem determine_strength_buckets_witness:
  "determine_strength 5 = WEAK \<and> determine_strength 4 = VERY_WEAK \<and>
   determine_strength 40 = VERY_STRONG \<and> determine_strength 39 = STRONG \<and>
   determine_strength (- 10) = VERY_WEAK \<and>
   (\<exists>r. check_password no_case_map unicode14_digit (lit ''abc111'') = Inr r \<and> strength r = lit ''Fair'')"
proof -
  have ne: "lit ''abc111'' \<noteq> []" by (simp add: lit_def)
  have r: "\<exists>r. check_password no_case_map unicode14_digit (lit ''abc111'') = Inr r \<and> strength r = lit ''Fair''"
    using determine_strength_buckets [of 10 no_case_map unicode14_digit "lit ''abc111''"]
    by (auto simp: check_password_nonempty [OF ne] abc111_total create_result_def)
  show ?thesis
    using determine_strength_buckets [of 5] determine_strength_buckets [of 4]
      determine_strength_buckets [of 40] determine_strength_buckets [of 39]
      determine_strength_buckets [of "- 10"] r
    by simp
qed

text \<open>
  Claim C5. On the empty string \<open>check_password\<close> returns score \<open>0\<close>, tier very weak,
  the one-element feedback list \<open>["Password cannot be empty"]\<close>, and \<open>is_strong\<close> false.
\<close>

theorem check_password_empty_result:
  "check_password lower_u digit_u [] =
    Inr \<lparr>strength = strength_value VERY_WEAK, score = 0,
         feedback = [lit ''Password cannot be empty''], is_strong = False\<rparr>"
  by (simp add: check_password_def create_result_def)

theorem check_password_empty_result_witness:
  "check_password no_case_map unicode14_digit [] =
    Inr \<lparr>strength = lit ''Very Weak'', score = 0,
         feedback = [lit ''Password cannot be empty''], is_strong = False\<rparr>"
  using check_password_empty_result [of no_case_map unicode14_digit] by simp

text \<open>
  Claim C6. At most one pattern penalty applies, the first that matches in the order
  common password (\<open>-10\<close>), sequential run (\<open>-5\<close>), repeated run (\<open>-5\<close>): a common
  password gets \<open>-10\<close> whatever runs it has, and a password with both kinds of run gets
  \<open>-5\<close> once.
\<close>

theorem check_patterns_first_match:
  "check_patterns lower_u p =
     Inr (if py_lower lower_u p \<in> common_passwords then - 10
          else if sequential_run p then - 5
          else if repeated_run p then - 5
          else 0)
   \<and> check_patterns lower_u p \<in> {Inr (- 10), Inr (- 5), Inr 0}"
  by (simp add: check_patterns_eq)

theorem check_patterns_first_match_witness:
  "check_patterns no_case_map (lit ''abc111'') = Inr (- 5) \<and>
   check_patterns no_case_map (lit ''abc123'') = Inr (- 10)"
  using check_patterns_first_match [of no_case_map "lit ''abc111''"]
    check_patterns_first_match [of no_case_map "lit ''abc123''"]
  by (simp add: abc111_not_common abc111_runs abc123_common)



text \<open>
  Claim C8. The \<open>is_strong\<close> flag of a result is true exactly when its tier is good,
  strong or very strong.
\<close>

theorem is_strong_iff_tier:
  "\<exists>r st. check_password lower_u digit_u p = Inr r \<and> strength r = strength_value st \<and>
     (is_strong r \<longleftrightarrow> st = GOOD \<or> st = STRONG \<or> st = VERY_STRONG) \<and>
     (is_strong r \<longleftrightarrow>
        strength r \<in> {strength_value GOOD, strength_value STRONG, strength_value VERY_STRONG})"
proof -
  have *: "(strength_value st \<in>
      {strength_value GOOD, strength_value STRONG, strength_value VERY_STRONG})
      = (st = GOOD \<or> st = STRONG \<or> st = VERY_STRONG)" for st
    by (cases st) (simp_all add: lit_def)
  show ?thesis
  proof (cases "p = []")
    case True
    show ?thesis
      apply (rule exI [of _ "create_result VERY_WEAK 0 [lit ''Password cannot be empty'']"])
      apply (rule exI [of _ VERY_WEAK])
      unfolding True check_password_of_empty
      using * [of VERY_WEAK] by (simp add: create_result_def)
  next
    case False
    show ?thesis
      apply (rule exI [of _ "create_result (determine_strength (total_score lower_u digit_u p))
         (total_score lower_u digit_u p) (feedback_list digit_u p (determine_strength (total_score lower_u digit_u p)))"])
      apply (rule exI [of _ "determine_strength (total_score lower_u digit_u p)"])
      unfolding check_password_nonempty [OF False]
      using * [of "determine_strength (total_score lower_u digit_u p)"] by (simp add: create_result_def)
  qed
qed

theorem is_strong_iff_tier_witness:
  "\<exists>r. check_password no_case_map unicode14_digit (lit ''abc111'') = Inr r \<and> strength r = lit ''Fair'' \<and>
     \<not> is_strong r"
proof -
  have ne: "lit ''abc111'' \<noteq> []" by (simp add: lit_def)
  show ?thesis
    using is_strong_iff_tier [of no_case_map unicode14_digit "lit ''abc111''"]
    by (auto simp: check_password_nonempty [OF ne] abc111_total create_result_def
        determine_strength_def)
qed

text \<open>
  Claim C9. The length sub-score is monotone in the length of the password; it is \<open>0\<close>
  below 6 characters, \<open>5\<close> for 6 or 7, \<open>10\<close> for 8 to 11, and \<open>15\<close> from 12 on.
\<close>

theorem check_length_monotone:
  "(length p \<le> length q \<longrightarrow> check_length p \<le> check_length q) \<and>
   check_length p =
     (if length p < 6 then 0
      else if length p \<le> 7 then 5
      else if length p \<le> 11 then 10
      else 15)"
  by (simp add: check_length_def Let_def)

theorem check_length_monotone_witness:
  "length (lit ''short1'') \<le> length (lit ''password'')
   \<and> check_length (lit ''short1'') \<le> check_length (lit ''password'')
   \<and> check_length (lit ''short1'') = 5 \<and> check_length (lit ''password'') = 10"
  using check_length_monotone [of "lit ''short1''" "lit ''password''"]
    check_length_monotone [of "lit ''password''" "lit ''short1''"]
  by (simp add: lit_def)

text \<open>
  Claim C10. The length sub-score is at most \<open>15\<close>, the variety sub-score at most
  \<open>20\<close> and the pattern sub-score at most \<open>0\<close>, so the total score is at most \<open>35\<close>;
  the very strong tier needs \<open>40\<close> and is never returned.
\<close>

theorem score_at_most_35_never_very_strong:
  "check_length p \<le> 15 \<and> check_character_variety digit_u p \<le> 20 \<and>
   (\<exists>n. check_patterns lower_u p = Inr n \<and> n \<le> 0) \<and>
   (\<exists>r. check_password lower_u digit_u p = Inr r \<and> score r \<le> 35 \<and>
        determine_strength (score r) \<noteq> VERY_STRONG \<and>
        strength r \<noteq> strength_value VERY_STRONG)"
proof -
  have sub: "check_length p \<le> 15" "check_character_variety digit_u p \<le> 20"
    "\<exists>n. check_patterns lower_u p = Inr n \<and> n \<le> 0"
    using check_length_bounds [of p] check_character_variety_bounds [of digit_u p]
      pattern_penalty_bounds [of lower_u p]
    by (simp_all add: check_patterns_penalty)
  have res: "\<exists>r. check_password lower_u digit_u p = Inr r \<and> score r \<le> 35 \<and>
        determine_strength (score r) \<noteq> VERY_STRONG \<and>
        strength r \<noteq> strength_value VERY_STRONG"
  proof (cases "p = []")
    case True
    then show ?thesis
      by (simp add: check_password_of_empty create_result_def determine_strength_def lit_def)
  next
    case False
    have le: "total_score lower_u digit_u p \<le> 35" using total_score_bounds [of lower_u digit_u p] by simp
    then have ne: "determine_strength (total_score lower_u digit_u p) \<noteq> VERY_STRONG"
      by (simp add: determine_strength_def)
    then have "strength_value (determine_strength (total_score lower_u digit_u p))
        \<noteq> strength_value VERY_STRONG"
      using strength_value_inj by blast
    with False le ne show ?thesis
      by (simp add: check_password_nonempty create_result_def)
  qed
  from sub res show ?thesis by blast
qed

text \<open>The bound is reached: a sample of the test suite scores exactly \<open>35\<close>.\<close>

theorem score_at_most_35_never_very_strong_witness:
  "\<exists>r. check_password no_case_map unicode14_digit (lit ''MyV3ryS3cur3P@ssw0rd!'') = Inr r \<and> score r = 35 \<and>
     strength r = lit ''Strong'' \<and> strength r \<noteq> lit ''Very Strong''"
proof -
  have ne: "lit ''MyV3ryS3cur3P@ssw0rd!'' \<noteq> []" by (simp add: lit_def)
  show ?thesis
    using score_at_most_35_never_very_strong
      [of "lit ''MyV3ryS3cur3P@ssw0rd!''" unicode14_digit no_case_map]
    by (auto simp: check_password_nonempty [OF ne] strong_sample_total create_result_def
        determine_strength_def)
qed

end
